theory Spec2Isabelle
  imports Main "HOL-Library.Sublist"
begin

section \<open>The fivek crawler: data model\<close>

text \<open>
  The development follows \<^verbatim>\<open>fivek_crawler.py\<close>. Python strings are character
  lists (each \<^typ>\<open>char\<close> one code point below 256), Python integers are \<^typ>\<open>int\<close>.
  Everything the script does to the outside world is explicit: the answers of the HTTP
  transport are parameters, the file system is a value passed through, printed lines and
  sleeps are events of a trace, and an exception that leaves a function is a result value.
\<close>

datatype py_error =
    AssertionError
  | AttributeError
  | TypeError
  | ValueError
  | ZeroDivisionError
  | UnboundLocalError
  | RegexError
  | FileExistsError
  | NotADirectoryError
  | OtherException

text \<open>
  How a call ends: it returns a value, an exception leaves it, or \<^verbatim>\<open>exit()\<close> ends the
  process (\<^verbatim>\<open>SystemExit\<close>, which nothing in the script catches).
\<close>

datatype 'a py_result = Return 'a | Raise py_error | SystemExit

text \<open>A Download Task is the two-element list \<^verbatim>\<open>[url, image_path]\<close> of the source.\<close>

type_synonym task = "string \<times> string"

text \<open>
  A \<^verbatim>\<open>pathlib\<close> path on a POSIX system: its root (\<open>''''\<close>, \<open>''/''\<close> or \<open>''//''\<close>)
  and its components. The file system maps a path to what is there.
\<close>

record path =
  root :: string
  parts :: "string list"

datatype node = Directory | RegularFile

type_synonym filesystem = "path \<Rightarrow> node option"

datatype event =
    Get string
  | Save string
  | Sleep_politeness
  | Print_timeout string nat
  | Print_error string
  | Append_failure task
  | Sleep_jitter
  | Get_listing int
  | Print_line string
  | Print_exists path
  | Pool_open int
  | Submit task
  | Pool_join

text \<open>
  The configuration an instance holds after \<^verbatim>\<open>__init__\<close>, and the state a run changes:
  the attribute \<^verbatim>\<open>incomplete_images\<close> (the Failure List), the file system, the tasks
  handed to a pool so far, and the trace.
\<close>

record crawler =
  expert_list :: "string list"
  max_workers :: int
  saving_dir :: string
  image_from :: int
  image_to :: int

record world =
  incomplete_images :: "task list"
  files :: filesystem
  submitted :: "task list"
  trace :: "event list"

definition fivek_src :: string where
  "fivek_src = ''https://data.csail.mit.edu/graphics/fivek''"

text \<open>
  \<^verbatim>\<open>__init__\<close>: the three assertions, then the default of \<^verbatim>\<open>saving_dir\<close>, which is
  the directory of the script (\<open>here\<close>).
\<close>

definition init ::
  "string \<Rightarrow> string list \<Rightarrow> int \<Rightarrow> string option \<Rightarrow> int \<Rightarrow> int \<Rightarrow> py_error + crawler"
where
  "init here experts workers dir from to =
     (if \<not> from < to then Inl AssertionError
      else if \<not> (0 \<le> from \<and> from \<le> 5000) then Inl AssertionError
      else if \<not> (0 \<le> to \<and> to \<le> 5000) then Inl AssertionError
      else Inr \<lparr>expert_list = experts, max_workers = workers,
                saving_dir = (case dir of None \<Rightarrow> here | Some d \<Rightarrow> d),
                image_from = from, image_to = to\<rparr>)"

definition emit :: "event list \<Rightarrow> world \<Rightarrow> world" where
  "emit es s = s\<lparr>trace := trace s @ es\<rparr>"

definition record_failure :: "task \<Rightarrow> world \<Rightarrow> world" where
  "record_failure t s =
     s\<lparr>incomplete_images := incomplete_images s @ [t], trace := trace s @ [Append_failure t]\<rparr>"

section \<open>The directory preparer (\<^verbatim>\<open>_create_expert_folder\<close>)\<close>

fun split_slash :: "string \<Rightarrow> string list" where
  "split_slash [] = [[]]"
| "split_slash (c # cs) =
     (if c = CHR ''/'' then [] # split_slash cs
      else (case split_slash cs of w # ws \<Rightarrow> (c # w) # ws | [] \<Rightarrow> [[c]]))"

fun join_slash :: "string list \<Rightarrow> string" where
  "join_slash [] = []"
| "join_slash [x] = x"
| "join_slash (x # y # r) = x @ CHR ''/'' # join_slash (y # r)"

text \<open>
  \<^verbatim>\<open>Path(s)\<close>: exactly two leading slashes are a root of their own, empty components
  and \<^verbatim>\<open>.\<close> are dropped, \<^verbatim>\<open>..\<close> is kept. \<^verbatim>\<open>str\<close> and \<^verbatim>\<open>.parent\<close> follow.
\<close>

definition Path :: "string \<Rightarrow> path" where
  "Path s =
     \<lparr>root = (if take 2 s = ''//'' \<and> take 3 s \<noteq> ''///'' then ''//''
              else if take 1 s = ''/'' then ''/'' else ''''),
      parts = filter (\<lambda>p. p \<noteq> [] \<and> p \<noteq> ''.'') (split_slash s)\<rparr>"

definition path_str :: "path \<Rightarrow> string" where
  "path_str p =
     (if parts p = [] then (if root p = [] then ''.'' else root p)
      else root p @ join_slash (parts p))"

definition parent :: "path \<Rightarrow> path" where
  "parent p = p\<lparr>parts := butlast (parts p)\<rparr>"

definition child :: "path \<Rightarrow> string \<Rightarrow> path" where
  "child p name = p\<lparr>parts := parts p @ [name]\<rparr>"

text \<open>
  \<^verbatim>\<open>mkdir(parents=True)\<close>, walking down from the root (or the working directory):
  a missing ancestor is created, an ancestor that is a regular file is
  \<^verbatim>\<open>NotADirectoryError\<close>, and the target itself must not exist, as a directory or as
  a file (\<^verbatim>\<open>FileExistsError\<close>). Permissions and symbolic links are not modelled, and
  \<^verbatim>\<open>..\<close> is a name like any other.
\<close>

fun mkdir_walk :: "filesystem \<Rightarrow> path \<Rightarrow> string list \<Rightarrow> py_error + filesystem" where
  "mkdir_walk fs dir [] = Inl FileExistsError"
| "mkdir_walk fs dir [name] =
     (case fs (child dir name) of
        None \<Rightarrow> Inr (fs(child dir name \<mapsto> Directory))
      | Some n \<Rightarrow> Inl FileExistsError)"
| "mkdir_walk fs dir (name # name' # rest) =
     (case fs (child dir name) of
        None \<Rightarrow> mkdir_walk (fs(child dir name \<mapsto> Directory)) (child dir name) (name' # rest)
      | Some Directory \<Rightarrow> mkdir_walk fs (child dir name) (name' # rest)
      | Some RegularFile \<Rightarrow> Inl NotADirectoryError)"

definition mkdir_parents :: "filesystem \<Rightarrow> path \<Rightarrow> py_error + filesystem" where
  "mkdir_parents fs p = mkdir_walk fs \<lparr>root = root p, parts = []\<rparr> (parts p)"

definition create_expert_folder :: "string \<Rightarrow> string \<Rightarrow> world \<Rightarrow> path py_result \<times> world" where
  "create_expert_folder expert_id dir s =
     (let folder_dir = Path (dir @ ''/fivek_expert/tiff16_'' @ expert_id) in
      case mkdir_parents (files s) folder_dir of
        Inr fs \<Rightarrow> (Return folder_dir, s\<lparr>files := fs\<rparr>)
      | Inl e \<Rightarrow>
          if e = FileExistsError then (Return folder_dir, emit [Print_exists folder_dir] s)
          else (Raise e, s))"

section \<open>The listing fetcher (\<^verbatim>\<open>_make_request\<close>)\<close>

text \<open>
  What \<^verbatim>\<open>rq.get\<close> does for the listing page: it raises an exception (given by the
  name of its class), or answers with a status code and a body.
\<close>

datatype response = Raises string | Responds int string

definition status_code :: "int \<Rightarrow> string" where
  "status_code code =
     (if code = 202 then ''202: Accepted''
      else if code = 204 then ''204: No Content''
      else if code = 400 then ''400: Bad Request''
      else if code = 401 then ''401: Unauthorized''
      else if code = 403 then ''403: Forbidden''
      else if code = 404 then ''404: Not Found''
      else if code = 409 then ''409: Conflict''
      else if code = 429 then ''429: Too Many Requests''
      else ''Not define in table'')"

text \<open>
  Both \<^verbatim>\<open>except\<close> clauses print the name of the class and fall off the end of the
  function, which then returns \<^verbatim>\<open>None\<close>; only the \<^verbatim>\<open>else\<close> branch of a status other
  than 200 calls \<^verbatim>\<open>exit()\<close>.
\<close>

definition make_request :: "response \<Rightarrow> int \<Rightarrow> world \<Rightarrow> string option py_result \<times> world" where
  "make_request web timeout s =
     (let s1 = emit [Sleep_jitter, Get_listing timeout] s in
      case web of
        Raises name \<Rightarrow> (Return None, emit [Print_line name] s1)
      | Responds code text \<Rightarrow>
          if code = 200 then (Return (Some text), emit [Print_line ''request successed''] s1)
          else (SystemExit, emit [Print_line (''Status_code: '' @ status_code code)] s1))"

section \<open>The URL extractor (\<^verbatim>\<open>_get_expert_images_url\<close>)\<close>

text \<open>
  The white space that \<^verbatim>\<open>\S\<close> excludes in a \<^verbatim>\<open>str\<close> pattern, and the smaller
  set that \<^verbatim>\<open>int()\<close> strips, among the code points below 256.
\<close>

definition regex_space :: "char \<Rightarrow> bool" where
  "regex_space c =
     (c \<in> set [CHR 0x09, CHR 0x0A, CHR 0x0B, CHR 0x0C, CHR 0x0D, CHR 0x1C, CHR 0x1D,
                CHR 0x1E, CHR 0x1F, CHR 0x20, CHR 0x85, CHR 0xA0])"

definition int_space :: "char \<Rightarrow> bool" where
  "int_space c =
     (c \<in> set [CHR 0x09, CHR 0x0A, CHR 0x0B, CHR 0x0C, CHR 0x0D, CHR 0x20, CHR 0x85, CHR 0xA0])"

definition is_digit :: "char \<Rightarrow> bool" where
  "is_digit c = (c \<in> set ''0123456789'')"

definition digit_value :: "char \<Rightarrow> int" where
  "digit_value c = int (of_char c) - 48"

text \<open>
  \<^verbatim>\<open>int(s)\<close> in base ten: white space around the literal is stripped, one sign may
  lead, and between two digits one underscore may stand. \<open>None\<close> is \<^verbatim>\<open>ValueError\<close>.
\<close>

fun digits_tail :: "int \<Rightarrow> string \<Rightarrow> int option" where
  "digits_tail acc [] = Some acc"
| "digits_tail acc [c] = (if is_digit c then Some (10 * acc + digit_value c) else None)"
| "digits_tail acc (c # d # r) =
     (if is_digit c then digits_tail (10 * acc + digit_value c) (d # r)
      else if c = CHR ''_'' \<and> is_digit d then digits_tail (10 * acc + digit_value d) r
      else None)"

definition unsigned_literal :: "string \<Rightarrow> int option" where
  "unsigned_literal t =
     (case t of [] \<Rightarrow> None
      | c # r \<Rightarrow> if is_digit c then digits_tail (digit_value c) r else None)"

definition strip_int :: "string \<Rightarrow> string" where
  "strip_int s = rev (dropWhile int_space (rev (dropWhile int_space s)))"

definition py_int :: "string \<Rightarrow> int option" where
  "py_int s =
     (case strip_int s of [] \<Rightarrow> None
      | c # r \<Rightarrow>
          if c = CHR ''-'' then map_option uminus (unsigned_literal r)
          else if c = CHR ''+'' then unsigned_literal r
          else unsigned_literal (c # r))"

text \<open>
  The pattern \<^verbatim>\<open>img/tiff16_[E]/\S*.tif\<close>, where the class \<^verbatim>\<open>[E]\<close> is the set of the
  characters of \<open>E\<close> (so it is for a string \<open>E\<close> of letters and digits; an empty \<open>E\<close>
  is refused when the pattern is compiled). \<open>dot_tif\<close> is the tail \<^verbatim>\<open>.tif\<close>, whose dot
  is any character but a newline. \<^verbatim>\<open>\S*\<close> is greedy: it first takes the whole run of
  characters that are not white space and gives them back one by one until the tail fits;
  \<open>backtrack r k\<close> is that search from \<open>k\<close> characters down.
\<close>

definition dot_tif :: "string \<Rightarrow> bool" where
  "dot_tif t =
     (case t of
        c # x # y # z # rest \<Rightarrow> c \<noteq> CHR 0x0A \<and> x = CHR ''t'' \<and> y = CHR ''i'' \<and> z = CHR ''f''
      | _ \<Rightarrow> False)"

fun backtrack :: "string \<Rightarrow> nat \<Rightarrow> nat option" where
  "backtrack r 0 = (if dot_tif r then Some 0 else None)"
| "backtrack r (Suc k) = (if dot_tif (drop (Suc k) r) then Some (Suc k) else backtrack r k)"

text \<open>The length of the match that starts at the head of \<open>s\<close>, if there is one.\<close>

definition match_at :: "string \<Rightarrow> string \<Rightarrow> nat option" where
  "match_at cls s =
     (if take 11 s = ''img/tiff16_'' then
        (case drop 11 s of
           e # sl # r \<Rightarrow>
             if e \<in> set cls \<and> sl = CHR ''/''
             then map_option (\<lambda>k. 13 + k + 4)
                    (backtrack r (length (takeWhile (\<lambda>c. \<not> regex_space c) r)))
             else None
         | _ \<Rightarrow> None)
      else None)"

text \<open>
  \<^verbatim>\<open>re.finditer\<close>: the matches from left to right, none overlapping another; the search
  goes on where the last match ended. A match is its start and its text
  (\<^verbatim>\<open>url.group()\<close>).
\<close>

function finditer_from :: "string \<Rightarrow> nat \<Rightarrow> string \<Rightarrow> (nat \<times> string) list" where
  "finditer_from cls pos [] = []"
| "finditer_from cls pos (c # cs) =
     (case match_at cls (c # cs) of
        Some n \<Rightarrow> (pos, take n (c # cs)) # finditer_from cls (pos + n) (drop n (c # cs))
      | None \<Rightarrow> finditer_from cls (pos + 1) cs)"
  by pat_completeness auto
termination
  by (relation "measure (\<lambda>(cls, pos, s). length s)")
    (auto simp: match_at_def split: if_splits list.splits)

definition finditer :: "string \<Rightarrow> string \<Rightarrow> (nat \<times> string) list" where
  "finditer cls text = finditer_from cls 0 text"

text \<open>\<^verbatim>\<open>int(url.group().split("/")[-1][1:5])\<close>\<close>

definition url_index :: "string \<Rightarrow> int option" where
  "url_index m = py_int (take 4 (drop 1 (last (split_slash m))))"

text \<open>
  A generator that has run: the values it yields, in order, and the exception that ends
  it, if one does. The consumer meets the exception only when it asks for the value
  after the last one yielded.
\<close>

type_synonym 'a generator = "'a list \<times> py_error option"

fun select_urls :: "int \<Rightarrow> int \<Rightarrow> string list \<Rightarrow> string generator" where
  "select_urls lo hi [] = ([], None)"
| "select_urls lo hi (m # ms) =
     (case url_index m of
        None \<Rightarrow> ([], Some ValueError)
      | Some n \<Rightarrow>
          (if lo \<le> n \<and> n \<le> hi
           then (m # fst (select_urls lo hi ms), snd (select_urls lo hi ms))
           else select_urls lo hi ms))"

text \<open>
  The argument is \<open>None\<close> when \<^verbatim>\<open>_make_request\<close> returned \<^verbatim>\<open>None\<close>; \<^verbatim>\<open>re.finditer\<close>
  then raises \<^verbatim>\<open>TypeError\<close>, after the pattern has been compiled.
\<close>

definition get_expert_images_url :: "crawler \<Rightarrow> string option \<Rightarrow> string generator" where
  "get_expert_images_url self web_html =
     (let experts = concat (expert_list self) in
      if experts = [] then ([], Some RegexError)
      else case web_html of
             None \<Rightarrow> ([], Some TypeError)
           | Some text \<Rightarrow>
               select_urls (image_from self) (image_to self) (map snd (finditer experts text)))"

text \<open>
  Expert identifiers are single characters; the character class of the pattern is the set
  of its characters when they are letters and digits, which is what the extractor's
  theorems assume of the configured list.
\<close>

definition expert_ids :: "string list \<Rightarrow> bool" where
  "expert_ids es =
     list_all (\<lambda>e. length e = 1 \<and>
        list_all (\<lambda>c. c \<in> set ''abcdefghijklmnopqrstuvwxyzABCDEFGHIJKLMNOPQRSTUVWXYZ0123456789'') e) es"

section \<open>The download worker (\<^verbatim>\<open>download_image\<close>)\<close>

text \<open>
  What one pass through the \<^verbatim>\<open>try\<close> block of \<^verbatim>\<open>download_image\<close> does is decided by
  the network and the disk. The body runs to its end when the server answers: with the
  image (\<open>Downloaded\<close>), or with an error status such as 404 (\<open>Http_error\<close>), for
  which \<^verbatim>\<open>rq.get\<close> raises nothing; the function neither reads the status nor calls
  \<^verbatim>\<open>raise_for_status\<close>, so the body of the answer is written to the file in both
  cases. Or the body raises \<^verbatim>\<open>Timeout\<close>, or raises another \<^verbatim>\<open>RequestException\<close>
  (which \<^verbatim>\<open>HTTPError\<close> is), or raises an exception that no \<^verbatim>\<open>except\<close> clause of the
  function catches (an \<^verbatim>\<open>OSError\<close> of \<^verbatim>\<open>open\<close>, say).
\<close>

datatype outcome = Downloaded | Http_error int | Timeout | RequestError | Uncaught

text \<open>
  The loop \<^verbatim>\<open>while retry < 3\<close>. The counter \<^verbatim>\<open>retry\<close> grows by one with each timeout
  and every other exit leaves the loop, so the attempt made while the counter is \<open>retry\<close>
  is attempt number \<open>retry\<close>, and \<open>net retry\<close> is what the transport does to it.
\<close>

function download_loop ::
  "(nat \<Rightarrow> outcome) \<Rightarrow> string \<Rightarrow> string \<Rightarrow> nat \<Rightarrow> world \<Rightarrow> unit py_result \<times> world"
where
  "download_loop net url image_path retry s =
     (if retry < 3 then
        (let s1 = emit [Get (fivek_src @ ''/'' @ url)] s in
         case net retry of
           Downloaded \<Rightarrow> (Return (), emit [Save image_path, Sleep_politeness] s1)
         | Http_error code \<Rightarrow> (Return (), emit [Save image_path, Sleep_politeness] s1)
         | Timeout \<Rightarrow>
             (let retry' = retry + 1 in
              if retry' = 3
              then download_loop net url image_path retry'
                     (record_failure (url, image_path) (emit [Print_timeout url retry'] s1))
              else download_loop net url image_path retry'
                     (emit [Print_timeout url retry'] s1))
         | RequestError \<Rightarrow>
             (Return (), record_failure (url, image_path) (emit [Print_error url] s1))
         | Uncaught \<Rightarrow> (Raise OtherException, s1))
      else (Return (), s))"
  by pat_completeness auto
termination
  by (relation "measure (\<lambda>(net, url, image_path, retry, s). 3 - retry)") auto

declare download_loop.simps [simp del]

definition download_image ::
  "(nat \<Rightarrow> outcome) \<Rightarrow> string \<Rightarrow> string \<Rightarrow> world \<Rightarrow> unit py_result \<times> world"
where
  "download_image net url image_path s = download_loop net url image_path 0 s"

text \<open>
  The trace of \<open>k\<close> timeouts in a row: a request and the printed line, \<open>k\<close> times, and
  nothing between them.
\<close>

definition timeouts_trace :: "string \<Rightarrow> nat \<Rightarrow> event list" where
  "timeouts_trace url k =
     concat (map (\<lambda>j. [Get (fivek_src @ ''/'' @ url), Print_timeout url (Suc j)]) [0..<k])"

section \<open>The pool orchestrator (\<^verbatim>\<open>main\<close>)\<close>

text \<open>
  The loop variable \<^verbatim>\<open>url\<close> of the bulk phase holds what the generator yields, and the
  generator yields \<^verbatim>\<open>url.group()\<close>, a \<^verbatim>\<open>str\<close>. A \<^verbatim>\<open>str\<close> has the method
  \<^verbatim>\<open>replace\<close> and no attribute \<^verbatim>\<open>group\<close>; a match object has \<^verbatim>\<open>group\<close> and no
  \<^verbatim>\<open>replace\<close>.
\<close>

datatype py_value = Str string | Match nat string

fun group :: "py_value \<Rightarrow> py_error + string" where
  "group (Match pos m) = Inr m"
| "group (Str s) = Inl AttributeError"

text \<open>\<^verbatim>\<open>s.replace("img", new)\<close>: every occurrence, from the left.\<close>

fun replace_img :: "string \<Rightarrow> string \<Rightarrow> string" where
  "replace_img new [] = []"
| "replace_img new (c # r) =
     (if take 3 (c # r) = ''img'' then new @ replace_img new (drop 2 r)
      else c # replace_img new r)"

fun replace_method :: "py_value \<Rightarrow> string \<Rightarrow> py_error + string" where
  "replace_method (Str s) new = Inr (replace_img new s)"
| "replace_method (Match pos m) new = Inl AttributeError"

text \<open>
  Lines 195 and 196, up to the call of \<^verbatim>\<open>submit\<close>: the path of the image, then the
  argument \<^verbatim>\<open>url.group()\<close>. \<open>folder_dir\<close> is \<open>None\<close> while the variable is unbound.
\<close>

definition submit_args :: "path option \<Rightarrow> py_value \<Rightarrow> py_error + task" where
  "submit_args folder_dir url =
     (case url of
        Match pos m \<Rightarrow> Inl AttributeError
      | Str s \<Rightarrow>
          (case folder_dir of
             None \<Rightarrow> Inl UnboundLocalError
           | Some d \<Rightarrow>
               (case replace_method url (path_str (parent d)) of
                  Inl e \<Rightarrow> Inl e
                | Inr image_path \<Rightarrow>
                    (case group url of
                       Inl e \<Rightarrow> Inl e
                     | Inr u \<Rightarrow> Inr (u, image_path)))))"

text \<open>
  The loop of lines 194 to 199 over the generator \<open>(urls, gerr)\<close>, with the tasks
  submitted so far. \<open>args\<close> evaluates the arguments of \<^verbatim>\<open>submit\<close> for one value of
  the generator, \<open>count\<close> is \<^verbatim>\<open>total_images\<close>. The result is the exception that
  leaves the loop, if one does, and the tasks submitted.
\<close>

fun bulk_loop ::
  "(string \<Rightarrow> py_error + task) \<Rightarrow> int \<Rightarrow> int \<Rightarrow> string list \<Rightarrow> py_error option \<Rightarrow> task list
     \<Rightarrow> py_error option \<times> task list"
where
  "bulk_loop args count i [] gerr futures = (gerr, futures)"
| "bulk_loop args count i (url # urls) gerr futures =
     (case args url of
        Inl e \<Rightarrow> (Some e, futures)
      | Inr t \<Rightarrow>
          if count = 0 then (Some ZeroDivisionError, futures @ [t])
          else if i mod count = 0 then (None, futures @ [t])
          else bulk_loop args count (i + 1) urls gerr (futures @ [t]))"

text \<open>
  A pool of worker threads, run in one order: the tasks start when the submitting loop
  has ended, and run one after the other, as a pool of one worker runs them. The
  \<open>k\<close>-th task ever submitted meets the transport \<open>net k\<close>. An exception that leaves
  \<^verbatim>\<open>download_image\<close> stays in the future of the task, which nobody reads. Leaving the
  \<^verbatim>\<open>with\<close> block of the pool, by its end or by an exception, waits for every task
  submitted. The progress bar is not modelled.
\<close>

fun run_tasks :: "(nat \<Rightarrow> nat \<Rightarrow> outcome) \<Rightarrow> nat \<Rightarrow> task list \<Rightarrow> world \<Rightarrow> world" where
  "run_tasks net k [] s = s"
| "run_tasks net k (t # ts) s =
     run_tasks net (Suc k) ts (snd (download_image (net k) (fst t) (snd t) s))"

definition run_pool :: "(nat \<Rightarrow> nat \<Rightarrow> outcome) \<Rightarrow> int \<Rightarrow> task list \<Rightarrow> world \<Rightarrow> world" where
  "run_pool net workers futures s =
     emit [Pool_join]
       (run_tasks net (length (submitted s)) futures
          (emit (Pool_open workers # map Submit futures) (s\<lparr>submitted := submitted s @ futures\<rparr>)))"

definition total_images :: "crawler \<Rightarrow> int" where
  "total_images self = (image_to self - image_from self) * int (length (expert_list self))"

text \<open>The loop of lines 186 and 187; \<open>folder_dir\<close> holds the folder of the last expert.\<close>

fun create_folders ::
  "string list \<Rightarrow> string \<Rightarrow> path option \<Rightarrow> world \<Rightarrow> path option py_result \<times> world"
where
  "create_folders [] dir folder_dir s = (Return folder_dir, s)"
| "create_folders (i # rest) dir folder_dir s =
     (case create_expert_folder i dir s of
        (Return d, s') \<Rightarrow> create_folders rest dir (Some d) s'
      | (Raise e, s') \<Rightarrow> (Raise e, s')
      | (SystemExit, s') \<Rightarrow> (SystemExit, s'))"

text \<open>
  Lines 189 to 201. The pool refuses a size below one with \<^verbatim>\<open>ValueError\<close>. The result
  is the exception that leaves the phase, if one does, the tasks it submitted, and the
  state after the pool has been left.
\<close>

definition bulk_phase ::
  "(nat \<Rightarrow> nat \<Rightarrow> outcome) \<Rightarrow> crawler \<Rightarrow> string generator \<Rightarrow> path option \<Rightarrow> world
     \<Rightarrow> (py_error option \<times> task list) \<times> world"
where
  "bulk_phase net self urls folder_dir s =
     (if max_workers self \<le> 0 then ((Some ValueError, []), s)
      else
        (let r = bulk_loop (\<lambda>url. submit_args folder_dir (Str url)) (total_images self) 1
                   (fst urls) (snd urls) []
         in (r, run_pool net (max_workers self) (snd r) s)))"

text \<open>
  The loop of lines 205 to 214, with fuel for its iterations: \<open>None\<close> when the fuel runs
  out. \<open>future\<close> tells whether the variable \<^verbatim>\<open>future\<close> is bound, which it is when the
  bulk phase has submitted a task. Line 211 reads it after the first task of the phase has
  been submitted; unbound, it raises \<^verbatim>\<open>UnboundLocalError\<close>, and the pool is left with
  that one task. Line 214 binds \<^verbatim>\<open>remains\<close> to the Failure List as it is, and nothing
  in the loop empties the list: from the second phase on, \<^verbatim>\<open>remains\<close> is the Failure
  List itself, and the submitting loop sees it as it was when the phase began, the tasks
  starting after it.
\<close>

fun cleanup_loop ::
  "nat \<Rightarrow> (nat \<Rightarrow> nat \<Rightarrow> outcome) \<Rightarrow> int \<Rightarrow> bool \<Rightarrow> task list \<Rightarrow> world
     \<Rightarrow> (unit py_result \<times> world) option"
where
  "cleanup_loop fuel net workers future [] s = Some (Return (), s)"
| "cleanup_loop 0 net workers future (t # ts) s = None"
| "cleanup_loop (Suc fuel) net workers future (t # ts) s =
     (if future then
        (let s' = run_pool net workers (t # ts) s
         in cleanup_loop fuel net workers future (incomplete_images s') s')
      else Some (Raise UnboundLocalError, run_pool net workers [t] s))"

text \<open>
  \<^verbatim>\<open>main\<close>. The generator runs only when the bulk loop asks it for a value, after the
  folders have been made. Lines 203 and 204 hand the Failure List to \<^verbatim>\<open>remains\<close> and
  put a new empty list in its place. \<^verbatim>\<open>_choose_header\<close> is taken to return a header.
\<close>

definition main ::
  "nat \<Rightarrow> response \<Rightarrow> (nat \<Rightarrow> nat \<Rightarrow> outcome) \<Rightarrow> crawler \<Rightarrow> world
     \<Rightarrow> (unit py_result \<times> world) option"
where
  "main fuel web net self s =
     (case make_request web 5 s of
        (SystemExit, s1) \<Rightarrow> Some (SystemExit, s1)
      | (Raise e, s1) \<Rightarrow> Some (Raise e, s1)
      | (Return web_html, s1) \<Rightarrow>
          (case create_folders (expert_list self) (saving_dir self) None s1 of
             (SystemExit, s2) \<Rightarrow> Some (SystemExit, s2)
           | (Raise e, s2) \<Rightarrow> Some (Raise e, s2)
           | (Return folder_dir, s2) \<Rightarrow>
               (case bulk_phase net self (get_expert_images_url self web_html) folder_dir s2 of
                  ((Some e, futures), s3) \<Rightarrow> Some (Raise e, s3)
                | ((None, futures), s3) \<Rightarrow>
                    cleanup_loop fuel net (max_workers self) (futures \<noteq> [])
                      (incomplete_images s3) (s3\<lparr>incomplete_images := []\<rparr>))))"

text \<open>What is looked at after a run: how it ended, the Failure List, the tasks submitted.\<close>

definition observe ::
  "(unit py_result \<times> world) option \<Rightarrow> (unit py_result \<times> task list \<times> task list) option"
where
  "observe r = map_option (\<lambda>(res, s). (res, incomplete_images s, submitted s)) r"

section \<open>The download worker: retries and recorded failures\<close>

lemma download_loop_exhausted:
  "3 \<le> retry \<Longrightarrow> download_loop net url p retry s = (Return (), s)"
  by (simp add: download_loop.simps [of net url p retry s])

lemma download_loop_timeout:
  "retry < 3 \<Longrightarrow> net retry = Timeout \<Longrightarrow>
   download_loop net url p retry s =
     download_loop net url p (Suc retry)
       (if Suc retry = 3
        then record_failure (url, p)
               (emit [Get (fivek_src @ ''/'' @ url), Print_timeout url (Suc retry)] s)
        else emit [Get (fivek_src @ ''/'' @ url), Print_timeout url (Suc retry)] s)"
  by (simp add: download_loop.simps [of net url p retry s] emit_def)

lemma download_loop_error:
  "retry < 3 \<Longrightarrow> net retry = RequestError \<Longrightarrow>
   download_loop net url p retry s =
     (Return (),
      record_failure (url, p) (emit [Get (fivek_src @ ''/'' @ url), Print_error url] s))"
  by (simp add: download_loop.simps [of net url p retry s] emit_def)

lemma download_loop_ok:
  "retry < 3 \<Longrightarrow> net retry = Downloaded \<Longrightarrow>
   download_loop net url p retry s =
     (Return (), emit [Get (fivek_src @ ''/'' @ url), Save p, Sleep_politeness] s)"
  by (simp add: download_loop.simps [of net url p retry s] emit_def)

lemma download_loop_uncaught:
  "retry < 3 \<Longrightarrow> net retry = Uncaught \<Longrightarrow>
   download_loop net url p retry s =
     (Raise OtherException, emit [Get (fivek_src @ ''/'' @ url)] s)"
  by (simp add: download_loop.simps [of net url p retry s])

lemma emit_emit: "emit es (emit ds s) = emit (ds @ es) s"
  by (simp add: emit_def)

lemma timeouts_trace_0: "timeouts_trace url 0 = []"
  by (simp add: timeouts_trace_def)

lemma timeouts_trace_Suc:
  "timeouts_trace url (Suc k) =
     timeouts_trace url k @ [Get (fivek_src @ ''/'' @ url), Print_timeout url (Suc k)]"
  by (simp add: timeouts_trace_def)

lemma less_3_cases: "(k::nat) < 3 \<Longrightarrow> k = 0 \<or> k = Suc 0 \<or> k = Suc (Suc 0)"
  by arith

lemma three_timeouts:
  assumes "net 0 = Timeout" "net (Suc 0) = Timeout" "net (Suc (Suc 0)) = Timeout"
  shows "download_image net url p s =
           (Return (), record_failure (url, p) (emit (timeouts_trace url 3) s))"
  using assms
  by (simp add: download_image_def download_loop_timeout download_loop_exhausted
      emit_emit numeral_3_eq_3 timeouts_trace_Suc timeouts_trace_0)

text \<open>
  Timeouts and exceptions of the request. Three timeouts in a row are three requests
  with nothing but the printed line between them (no sleep), then the task is appended to
  the Failure List once and the worker returns; an exception of the request other than a
  timeout, met at attempt \<open>k\<close> after \<open>k\<close> timeouts, appends the task at once and
  returns, with \<open>k + 1\<close> requests made; and a download that succeeds at attempt \<open>k\<close>
  appends nothing.
\<close>

theorem download_image_retry:
  "(net 0 = Timeout \<and> net 1 = Timeout \<and> net 2 = Timeout \<longrightarrow>
      download_image net url p s =
        (Return (), record_failure (url, p) (emit (timeouts_trace url 3) s)))
   \<and> (k < 3 \<and> (\<forall>j<k. net j = Timeout) \<and> net k = RequestError \<longrightarrow>
      download_image net url p s =
        (Return (),
         record_failure (url, p)
           (emit (timeouts_trace url k @ [Get (fivek_src @ ''/'' @ url), Print_error url]) s)))
   \<and> (k < 3 \<and> (\<forall>j<k. net j = Timeout) \<and> net k = Downloaded \<longrightarrow>
      download_image net url p s =
        (Return (),
         emit (timeouts_trace url k @
               [Get (fivek_src @ ''/'' @ url), Save p, Sleep_politeness]) s))"
proof (intro conjI impI)
  assume "net 0 = Timeout \<and> net 1 = Timeout \<and> net 2 = Timeout"
  then have "net 0 = Timeout" "net (Suc 0) = Timeout" "net (Suc (Suc 0)) = Timeout"
    by (simp_all add: numeral_2_eq_2)
  then show "download_image net url p s =
        (Return (), record_failure (url, p) (emit (timeouts_trace url 3) s))"
    by (rule three_timeouts)
next
  assume a: "k < 3 \<and> (\<forall>j<k. net j = Timeout) \<and> net k = RequestError"
  then consider "k = 0" | "k = Suc 0" | "k = Suc (Suc 0)"
    using less_3_cases by blast
  then show "download_image net url p s =
        (Return (),
         record_failure (url, p)
           (emit (timeouts_trace url k @ [Get (fivek_src @ ''/'' @ url), Print_error url]) s))"
  proof cases
    case 1
    with a show ?thesis
      by (simp add: download_image_def download_loop_error timeouts_trace_0)
  next
    case 2
    with a have "net 0 = Timeout" "net (Suc 0) = RequestError" by simp_all
    with 2 show ?thesis
      by (simp add: download_image_def download_loop_timeout download_loop_error
          emit_emit timeouts_trace_Suc timeouts_trace_0)
  next
    case 3
    with a have "net 0 = Timeout" "net (Suc 0) = Timeout" "net (Suc (Suc 0)) = RequestError"
      by simp_all
    with 3 show ?thesis
      by (simp add: download_image_def download_loop_timeout download_loop_error
          emit_emit timeouts_trace_Suc timeouts_trace_0)
  qed
next
  assume a: "k < 3 \<and> (\<forall>j<k. net j = Timeout) \<and> net k = Downloaded"
  then consider "k = 0" | "k = Suc 0" | "k = Suc (Suc 0)"
    using less_3_cases by blast
  then show "download_image net url p s =
        (Return (),
         emit (timeouts_trace url k @
               [Get (fivek_src @ ''/'' @ url), Save p, Sleep_politeness]) s)"
  proof cases
    case 1
    with a show ?thesis
      by (simp add: download_image_def download_loop_ok timeouts_trace_0)
  next
    case 2
    with a have "net 0 = Timeout" "net (Suc 0) = Downloaded" by simp_all
    with 2 show ?thesis
      by (simp add: download_image_def download_loop_timeout download_loop_ok
          emit_emit timeouts_trace_Suc timeouts_trace_0)
  next
    case 3
    with a have "net 0 = Timeout" "net (Suc 0) = Timeout" "net (Suc (Suc 0)) = Downloaded"
      by simp_all
    with 3 show ?thesis
      by (simp add: download_image_def download_loop_timeout download_loop_ok
          emit_emit timeouts_trace_Suc timeouts_trace_0)
  qed
qed

theorem download_image_retry_witness:
  "download_image (\<lambda>n. Timeout) ''img/tiff16_a/a0289.tif'' ''out/a0289.tif''
       \<lparr>incomplete_images = [], files = Map.empty, submitted = [], trace = []\<rparr> =
     (Return (),
      \<lparr>incomplete_images = [(''img/tiff16_a/a0289.tif'', ''out/a0289.tif'')],
       files = Map.empty, submitted = [],
       trace = [Get (fivek_src @ ''/img/tiff16_a/a0289.tif''),
                Print_timeout ''img/tiff16_a/a0289.tif'' 1,
                Get (fivek_src @ ''/img/tiff16_a/a0289.tif''),
                Print_timeout ''img/tiff16_a/a0289.tif'' 2,
                Get (fivek_src @ ''/img/tiff16_a/a0289.tif''),
                Print_timeout ''img/tiff16_a/a0289.tif'' 3,
                Append_failure (''img/tiff16_a/a0289.tif'', ''out/a0289.tif'')]\<rparr>)
   \<and> download_image (\<lambda>n. if n = 0 then Timeout else RequestError)
       ''img/tiff16_a/a0289.tif'' ''out/a0289.tif''
       \<lparr>incomplete_images = [], files = Map.empty, submitted = [], trace = []\<rparr> =
     (Return (),
      \<lparr>incomplete_images = [(''img/tiff16_a/a0289.tif'', ''out/a0289.tif'')],
       files = Map.empty, submitted = [],
       trace = [Get (fivek_src @ ''/img/tiff16_a/a0289.tif''),
                Print_timeout ''img/tiff16_a/a0289.tif'' 1,
                Get (fivek_src @ ''/img/tiff16_a/a0289.tif''),
                Print_error ''img/tiff16_a/a0289.tif'',
                Append_failure (''img/tiff16_a/a0289.tif'', ''out/a0289.tif'')]\<rparr>)
   \<and> download_image (\<lambda>n. if n < 2 then Timeout else Downloaded)
       ''img/tiff16_a/a0289.tif'' ''out/a0289.tif''
       \<lparr>incomplete_images = [], files = Map.empty, submitted = [], trace = []\<rparr> =
     (Return (),
      \<lparr>incomplete_images = [], files = Map.empty, submitted = [],
       trace = [Get (fivek_src @ ''/img/tiff16_a/a0289.tif''),
                Print_timeout ''img/tiff16_a/a0289.tif'' 1,
                Get (fivek_src @ ''/img/tiff16_a/a0289.tif''),
                Print_timeout ''img/tiff16_a/a0289.tif'' 2,
                Get (fivek_src @ ''/img/tiff16_a/a0289.tif''),
                Save ''out/a0289.tif'', Sleep_politeness]\<rparr>)"
  using download_image_retry [of "\<lambda>n. Timeout" "''img/tiff16_a/a0289.tif''" "''out/a0289.tif''"
      "\<lparr>incomplete_images = [], files = Map.empty, submitted = [], trace = []\<rparr>" 0]
    download_image_retry [of "\<lambda>n. if n = 0 then Timeout else RequestError"
      "''img/tiff16_a/a0289.tif''" "''out/a0289.tif''"
      "\<lparr>incomplete_images = [], files = Map.empty, submitted = [], trace = []\<rparr>" 1]
    download_image_retry [of "\<lambda>n. if n < 2 then Timeout else Downloaded"
      "''img/tiff16_a/a0289.tif''" "''out/a0289.tif''"
      "\<lparr>incomplete_images = [], files = Map.empty, submitted = [], trace = []\<rparr>" 2]
  by (simp add: timeouts_trace_def emit_def record_failure_def upt_rec numeral_2_eq_2
      numeral_3_eq_3)

lemma download_loop_http_error:
  "retry < 3 \<Longrightarrow> net retry = Http_error code \<Longrightarrow>
   download_loop net url p retry s =
     (Return (), emit [Get (fivek_src @ ''/'' @ url), Save p, Sleep_politeness] s)"
  by (simp add: download_loop.simps [of net url p retry s] emit_def)

text \<open>
  C5. The server answers the first attempt with the status 404. No exception is raised,
  so neither \<^verbatim>\<open>except\<close> clause runs: the worker writes the body of the answer to the
  image file, sleeps and returns after that one request, and the Failure List is as it
  was; the task is not recorded. The same holds of every error status that comes as an
  answer. (The clause \<^verbatim>\<open>except (HTTPError, RequestException)\<close> is there for such an
  error, but only \<^verbatim>\<open>raise_for_status\<close>, which is never called, raises \<^verbatim>\<open>HTTPError\<close>.)
\<close>

theorem http_error_answer_not_recorded:
  "download_image (\<lambda>n. Http_error 404) url p s =
     (Return (), emit [Get (fivek_src @ ''/'' @ url), Save p, Sleep_politeness] s)
   \<and> incomplete_images (snd (download_image (\<lambda>n. Http_error 404) url p s)) =
       incomplete_images s
   \<and> download_image (\<lambda>n. Http_error code) ''img/tiff16_a/a0289.tif'' ''/data/a0289.tif''
       \<lparr>incomplete_images = [], files = Map.empty, submitted = [], trace = []\<rparr> =
     (Return (),
      \<lparr>incomplete_images = [], files = Map.empty, submitted = [],
       trace = [Get (fivek_src @ ''/img/tiff16_a/a0289.tif''), Save ''/data/a0289.tif'',
                Sleep_politeness]\<rparr>)"
  by (simp add: download_image_def download_loop_http_error emit_def)

section \<open>The URL extractor: what is yielded, and in which order\<close>

lemma backtrack_Some: "backtrack r k = Some j \<Longrightarrow> j \<le> k \<and> dot_tif (drop j r)"
  by (induction k) (auto split: if_splits)

lemma dot_tif_length: "dot_tif t \<Longrightarrow> 4 \<le> length t"
  by (auto simp: dot_tif_def split: list.splits)

lemma match_at_Some:
  assumes "match_at cls s = Some n"
  shows "17 \<le> n" and "n \<le> length s"
    and "\<exists>e rest. take n s = ''img/tiff16_'' @ [e] @ ''/'' @ rest \<and> e \<in> set cls"
proof -
  from assms have pre: "take 11 s = ''img/tiff16_''"
    by (auto simp: match_at_def split: if_splits)
  from assms obtain e r where d: "drop 11 s = e # CHR ''/'' # r" and e: "e \<in> set cls"
    and b: "map_option (\<lambda>k. 13 + k + 4)
              (backtrack r (length (takeWhile (\<lambda>c. \<not> regex_space c) r))) = Some n"
    by (auto simp: match_at_def split: if_splits list.splits)
  from b obtain j where j: "backtrack r (length (takeWhile (\<lambda>c. \<not> regex_space c) r)) = Some j"
    and n: "n = 13 + j + 4" by auto
  from j have "dot_tif (drop j r)" by (simp add: backtrack_Some)
  then have "4 \<le> length (drop j r)" by (rule dot_tif_length)
  then have jr: "j + 4 \<le> length r" by simp
  define p where "p = ''img/tiff16_'' @ [e] @ ''/''"
  have lp: "length p = 13" by (simp add: p_def)
  have "s = take 11 s @ drop 11 s" by simp
  then have s': "s = p @ r" using pre d by (simp add: p_def)
  show "17 \<le> n" using n by simp
  show "n \<le> length s" using n jr lp by (simp add: s')
  have "n = length p + (j + 4)" using n lp by simp
  then have "take n s = p @ take (j + 4) r"
    by (simp add: s')
  then have "take n s = ''img/tiff16_'' @ [e] @ ''/'' @ take (j + 4) r"
    by (simp add: p_def)
  then show "\<exists>e rest. take n s = ''img/tiff16_'' @ [e] @ ''/'' @ rest \<and> e \<in> set cls"
    using e by blast
qed

lemma finditer_from_lower: "pm \<in> set (finditer_from cls pos s) \<Longrightarrow> pos \<le> fst pm"
  by (induction cls pos s rule: finditer_from.induct) (auto split: option.splits)

lemma finditer_from_sorted: "sorted_wrt (<) (map fst (finditer_from cls pos s))"
proof (induction cls pos s rule: finditer_from.induct)
  case (1 cls pos)
  then show ?case by simp
next
  case (2 cls pos c cs)
  show ?case
  proof (cases "match_at cls (c # cs)")
    case None
    with 2 show ?thesis by simp
  next
    case (Some n)
    then have "17 \<le> n" by (rule match_at_Some)
    then have "pos < fst pm" if "pm \<in> set (finditer_from cls (pos + n) (drop n (c # cs)))" for pm
      using finditer_from_lower [OF that] by simp
    with 2 Some show ?thesis by auto
  qed
qed

lemma finditer_from_occurs:
  "pm \<in> set (finditer_from cls pos s) \<Longrightarrow>
   take (length (snd pm)) (drop (fst pm - pos) s) = snd pm"
proof (induction cls pos s rule: finditer_from.induct)
  case (1 cls pos)
  then show ?case by simp
next
  case (2 cls pos c cs)
  show ?case
  proof (cases "match_at cls (c # cs)")
    case None
    with 2 have pm: "pm \<in> set (finditer_from cls (pos + 1) cs)" by simp
    from finditer_from_lower [OF pm] have "fst pm - pos = Suc (fst pm - (pos + 1))" by simp
    with "2.IH"(1) [OF None pm] show ?thesis by simp
  next
    case (Some n)
    then have n: "n \<le> length (c # cs)" by (rule match_at_Some)
    from "2.prems" Some consider "pm = (pos, take n (c # cs))"
      | "pm \<in> set (finditer_from cls (pos + n) (drop n (c # cs)))" by auto
    then show ?thesis
    proof cases
      case 1
      with n show ?thesis by (simp add: min_def)
    next
      case 2
      from finditer_from_lower [OF 2] have "fst pm - pos = n + (fst pm - (pos + n))" by simp
      with "2.IH"(2) [OF Some 2] show ?thesis by (simp add: add.commute del: drop_Suc_Cons)
    qed
  qed
qed

lemma finditer_from_shape:
  "pm \<in> set (finditer_from cls pos s) \<Longrightarrow>
   \<exists>e rest. snd pm = ''img/tiff16_'' @ [e] @ ''/'' @ rest \<and> e \<in> set cls"
proof (induction cls pos s rule: finditer_from.induct)
  case (1 cls pos)
  then show ?case by simp
next
  case (2 cls pos c cs)
  show ?case
  proof (cases "match_at cls (c # cs)")
    case None
    with 2 show ?thesis by simp
  next
    case (Some n)
    from "2.prems" Some consider "pm = (pos, take n (c # cs))"
      | "pm \<in> set (finditer_from cls (pos + n) (drop n (c # cs)))" by auto
    then show ?thesis
    proof cases
      case 1
      with match_at_Some(3) [OF Some] show ?thesis by simp
    next
      case 2
      with "2.IH"(2) [OF Some] show ?thesis by simp
    qed
  qed
qed

lemma select_urls_subseq: "subseq (fst (select_urls lo hi ms)) ms"
  by (induction ms) (auto split: option.splits)

lemma select_urls_in_range:
  "y \<in> set (fst (select_urls lo hi ms)) \<Longrightarrow> \<exists>n. url_index y = Some n \<and> lo \<le> n \<and> n \<le> hi"
  by (induction ms) (auto split: option.splits if_splits)

lemma select_urls_member: "y \<in> set (fst (select_urls lo hi ms)) \<Longrightarrow> y \<in> set ms"
  by (induction ms) (auto split: option.splits if_splits)

lemma expert_ids_concat:
  "expert_ids es \<Longrightarrow> e \<in> set (concat es) \<Longrightarrow> [e] \<in> set es"
  by (induction es) (auto simp: expert_ids_def length_Suc_conv)

lemma finditer_sorted: "sorted_wrt (<) (map fst (finditer cls text))"
  by (simp add: finditer_def finditer_from_sorted)

lemma finditer_occurs:
  "list_all (\<lambda>pm. take (length (snd pm)) (drop (fst pm) text) = snd pm) (finditer cls text)"
  using finditer_from_occurs [of _ cls 0 "text"]
  by (simp add: finditer_def list_all_iff)

text \<open>
  C6. For expert identifiers that are single letters or digits, every inclusive range and
  every listing text: each path the extractor yields has the index \<^verbatim>\<open>int(name[1:5])\<close>
  of its file name within the range and, after \<^verbatim>\<open>img/tiff16_\<close>, one of the configured
  experts; the yielded paths are a subsequence of the matches of the pattern, which
  \<open>finditer\<close> lists by strictly growing start, each standing in the text at its start. And
  with the range 289 to 300, of the two lines \<^verbatim>\<open>img/tiff16_a/a0289.tif\<close> and
  \<^verbatim>\<open>img/tiff16_a/a0500.tif\<close> the first is yielded and the second is not.
\<close>

theorem url_extractor_selects:
  "(expert_ids (expert_list self) \<and> get_expert_images_url self (Some text) = (ys, err) \<longrightarrow>
      list_all (\<lambda>y. (\<exists>n. url_index y = Some n \<and> image_from self \<le> n \<and> n \<le> image_to self)
                  \<and> (\<exists>e rest. y = ''img/tiff16_'' @ e @ ''/'' @ rest \<and> e \<in> set (expert_list self))) ys
      \<and> subseq ys (map snd (finditer (concat (expert_list self)) text))
      \<and> sorted_wrt (<) (map fst (finditer (concat (expert_list self)) text))
      \<and> list_all (\<lambda>pm. take (length (snd pm)) (drop (fst pm) text) = snd pm)
          (finditer (concat (expert_list self)) text))
   \<and> get_expert_images_url
       \<lparr>expert_list = [''a'', ''b'', ''c'', ''d'', ''e''], max_workers = 5, saving_dir = ''.'',
        image_from = 289, image_to = 300\<rparr>
       (Some (''img/tiff16_a/a0289.tif'' @ [CHR 0x0A] @ ''img/tiff16_a/a0500.tif'')) =
     ([''img/tiff16_a/a0289.tif''], None)"
proof (intro conjI impI)
  assume a: "expert_ids (expert_list self) \<and> get_expert_images_url self (Some text) = (ys, err)"
  define E where "E = concat (expert_list self)"
  define ms where "ms = map snd (finditer E text)"
  have ys: "ys = [] \<or> ys = fst (select_urls (image_from self) (image_to self) ms)"
    using a by (auto simp: get_expert_images_url_def E_def ms_def Let_def split: if_splits)
  show "list_all (\<lambda>y. (\<exists>n. url_index y = Some n \<and> image_from self \<le> n \<and> n \<le> image_to self)
                  \<and> (\<exists>e rest. y = ''img/tiff16_'' @ e @ ''/'' @ rest \<and> e \<in> set (expert_list self))) ys"
    unfolding list_all_iff
  proof
    fix y assume y: "y \<in> set ys"
    with ys have sel: "y \<in> set (fst (select_urls (image_from self) (image_to self) ms))" by auto
    then have "y \<in> set ms" by (rule select_urls_member)
    then obtain pm where "pm \<in> set (finditer_from E 0 text)" "y = snd pm"
      by (auto simp: ms_def finditer_def)
    with finditer_from_shape obtain e rest where
      "y = ''img/tiff16_'' @ [e] @ ''/'' @ rest" "e \<in> set E" by blast
    with a have "y = ''img/tiff16_'' @ [e] @ ''/'' @ rest \<and> [e] \<in> set (expert_list self)"
      by (simp add: E_def expert_ids_concat)
    then have "\<exists>e rest. y = ''img/tiff16_'' @ e @ ''/'' @ rest \<and> e \<in> set (expert_list self)"
      by blast
    with select_urls_in_range [OF sel]
    show "(\<exists>n. url_index y = Some n \<and> image_from self \<le> n \<and> n \<le> image_to self)
          \<and> (\<exists>e rest. y = ''img/tiff16_'' @ e @ ''/'' @ rest \<and> e \<in> set (expert_list self))"
      by blast
  qed
  show "subseq ys (map snd (finditer (concat (expert_list self)) text))"
    using ys select_urls_subseq [of "image_from self" "image_to self" ms]
    by (auto simp: ms_def E_def)
  show "sorted_wrt (<) (map fst (finditer (concat (expert_list self)) text))"
    by (rule finditer_sorted)
  show "list_all (\<lambda>pm. take (length (snd pm)) (drop (fst pm) text) = snd pm)
          (finditer (concat (expert_list self)) text)"
    by (rule finditer_occurs)
next
  show "get_expert_images_url
       \<lparr>expert_list = [''a'', ''b'', ''c'', ''d'', ''e''], max_workers = 5, saving_dir = ''.'',
        image_from = 289, image_to = 300\<rparr>
       (Some (''img/tiff16_a/a0289.tif'' @ [CHR 0x0A] @ ''img/tiff16_a/a0500.tif'')) =
     ([''img/tiff16_a/a0289.tif''], None)"
    by (simp add: get_expert_images_url_def finditer_def match_at_def dot_tif_def
      regex_space_def url_index_def py_int_def strip_int_def int_space_def
      unsigned_literal_def is_digit_def digit_value_def)
qed

theorem url_extractor_selects_witness:
  "expert_ids [''a'', ''b'']
   \<and> get_expert_images_url
       \<lparr>expert_list = [''a'', ''b''], max_workers = 5, saving_dir = ''.'',
        image_from = 289, image_to = 300\<rparr>
       (Some ''x img/tiff16_b/a0290.tif img/tiff16_a/a0500.tif img/tiff16_a/a0289.tif'') =
     ([''img/tiff16_b/a0290.tif'', ''img/tiff16_a/a0289.tif''], None)
   \<and> list_all (\<lambda>y. (\<exists>n. url_index y = Some n \<and> 289 \<le> n \<and> n \<le> 300)
                  \<and> (\<exists>e rest. y = ''img/tiff16_'' @ e @ ''/'' @ rest \<and> e \<in> set [''a'', ''b'']))
       [''img/tiff16_b/a0290.tif'', ''img/tiff16_a/a0289.tif'']
   \<and> subseq [''img/tiff16_b/a0290.tif'', ''img/tiff16_a/a0289.tif'']
       (map snd (finditer ''ab''
          ''x img/tiff16_b/a0290.tif img/tiff16_a/a0500.tif img/tiff16_a/a0289.tif''))
   \<and> finditer ''ab'' ''x img/tiff16_b/a0290.tif img/tiff16_a/a0500.tif img/tiff16_a/a0289.tif'' =
       [(2, ''img/tiff16_b/a0290.tif''), (25, ''img/tiff16_a/a0500.tif''),
        (48, ''img/tiff16_a/a0289.tif'')]"
proof -
  have f: "finditer ''ab'' ''x img/tiff16_b/a0290.tif img/tiff16_a/a0500.tif img/tiff16_a/a0289.tif'' =
       [(2, ''img/tiff16_b/a0290.tif''), (25, ''img/tiff16_a/a0500.tif''),
        (48, ''img/tiff16_a/a0289.tif'')]"
    by (simp add: finditer_def match_at_def dot_tif_def regex_space_def)
  have e: "expert_ids [''a'', ''b'']"
    by (simp add: expert_ids_def)
  have g: "get_expert_images_url
       \<lparr>expert_list = [''a'', ''b''], max_workers = 5, saving_dir = ''.'',
        image_from = 289, image_to = 300\<rparr>
       (Some ''x img/tiff16_b/a0290.tif img/tiff16_a/a0500.tif img/tiff16_a/a0289.tif'') =
     ([''img/tiff16_b/a0290.tif'', ''img/tiff16_a/a0289.tif''], None)"
    by (simp add: get_expert_images_url_def f url_index_def py_int_def strip_int_def int_space_def
      unsigned_literal_def is_digit_def digit_value_def)
  from url_extractor_selects [of "\<lparr>expert_list = [''a'', ''b''], max_workers = 5, saving_dir = ''.'',
        image_from = 289, image_to = 300\<rparr>"
      "''x img/tiff16_b/a0290.tif img/tiff16_a/a0500.tif img/tiff16_a/a0289.tif''"
      "[''img/tiff16_b/a0290.tif'', ''img/tiff16_a/a0289.tif'']" None]
  show ?thesis using e g f by simp
qed

section \<open>The URL extractor: where it raises\<close>

lemma select_urls_char:
  "select_urls lo hi ms =
     (filter (\<lambda>m. \<exists>n. url_index m = Some n \<and> lo \<le> n \<and> n \<le> hi)
        (takeWhile (\<lambda>m. url_index m \<noteq> None) ms),
      if list_all (\<lambda>m. url_index m \<noteq> None) ms then None else Some ValueError)"
  by (induction ms) (auto split: option.splits)

lemma digits_tail_digits: "list_all is_digit ds \<Longrightarrow> digits_tail acc ds \<noteq> None"
  by (induction acc ds rule: digits_tail.induct) auto

lemma digit_not_space: "is_digit c \<Longrightarrow> \<not> int_space c"
  by (auto simp: is_digit_def int_space_def)

lemma dropWhile_keeps: "xs \<noteq> [] \<Longrightarrow> \<not> P (hd xs) \<Longrightarrow> dropWhile P xs = xs"
  by (cases xs) auto

lemma strip_int_digits: "list_all is_digit ds \<Longrightarrow> strip_int ds = ds"
proof (cases ds)
  case Nil
  then show ?thesis by (simp add: strip_int_def)
next
  case (Cons c cs)
  assume d: "list_all is_digit ds"
  with Cons have "\<not> int_space c" by (simp add: digit_not_space)
  then have 1: "dropWhile int_space ds = ds" using Cons by simp
  have ne: "ds \<noteq> []" using Cons by simp
  then have "last ds \<in> set ds" by (rule last_in_set)
  with d have "is_digit (last ds)" by (simp add: list_all_iff)
  then have "\<not> int_space (last ds)" by (rule digit_not_space)
  moreover have "hd (rev ds) = last ds" using ne by (simp add: hd_rev)
  moreover have "rev ds \<noteq> []" using ne by simp
  ultimately have "dropWhile int_space (rev ds) = rev ds"
    by (simp add: dropWhile_keeps)
  with 1 show ?thesis by (simp add: strip_int_def)
qed

lemma digit_not_sign: "is_digit c \<Longrightarrow> c \<noteq> CHR ''-'' \<and> c \<noteq> CHR ''+''"
  by (auto simp: is_digit_def)

lemma py_int_digits: "ds \<noteq> [] \<Longrightarrow> list_all is_digit ds \<Longrightarrow> py_int ds \<noteq> None"
  by (cases ds) (auto simp: py_int_def strip_int_digits unsigned_literal_def digits_tail_digits
      digit_not_sign)

lemma expert_ids_nonempty: "es \<noteq> [] \<Longrightarrow> expert_ids es \<Longrightarrow> concat es \<noteq> []"
  by (cases es) (auto simp: expert_ids_def)

text \<open>
  C9, as stated, fails: the file name \<^verbatim>\<open>a+289.tif\<close> has a sign at position 1, not a
  digit, yet \<^verbatim>\<open>int("+289")\<close> is 289 and the extractor yields the entry without an
  error.
\<close>

theorem url_extractor_accepts_signed_index:
  "get_expert_images_url
       \<lparr>expert_list = [''a'', ''b'', ''c'', ''d'', ''e''], max_workers = 5, saving_dir = ''.'',
        image_from = 289, image_to = 300\<rparr>
       (Some ''img/tiff16_a/a+289.tif'') = ([''img/tiff16_a/a+289.tif''], None)
   \<and> map snd (finditer ''abcde'' ''img/tiff16_a/a+289.tif'') = [''img/tiff16_a/a+289.tif'']
   \<and> take 4 (drop 1 (last (split_slash ''img/tiff16_a/a+289.tif''))) = ''+289''
   \<and> \<not> list_all is_digit ''+289''"
  by (simp add: get_expert_images_url_def finditer_def match_at_def dot_tif_def
      regex_space_def url_index_def py_int_def strip_int_def int_space_def
      unsigned_literal_def is_digit_def digit_value_def)

text \<open>
  C9, amended. For a non-empty list of expert identifiers, the extractor yields the
  selected matches that come before the first match whose characters 1 to 4 of the file
  name are no literal of \<^verbatim>\<open>int()\<close>, and raises \<^verbatim>\<open>ValueError\<close> there; it ends without
  an exception exactly when there is no such match. Up to four decimal digits are always
  a literal. The file name \<^verbatim>\<open>abcde.tif\<close> raises \<^verbatim>\<open>ValueError\<close>; it is neither skipped
  nor yielded.
\<close>

theorem url_extractor_total_domain:
  "(expert_list self \<noteq> [] \<and> expert_ids (expert_list self) \<longrightarrow>
      get_expert_images_url self (Some text) =
        (filter (\<lambda>m. \<exists>n. url_index m = Some n \<and> image_from self \<le> n \<and> n \<le> image_to self)
           (takeWhile (\<lambda>m. url_index m \<noteq> None)
              (map snd (finditer (concat (expert_list self)) text))),
         if list_all (\<lambda>m. url_index m \<noteq> None)
              (map snd (finditer (concat (expert_list self)) text))
         then None else Some ValueError))
   \<and> (take 4 (drop 1 (last (split_slash m))) \<noteq> []
        \<and> list_all is_digit (take 4 (drop 1 (last (split_slash m)))) \<longrightarrow> url_index m \<noteq> None)
   \<and> get_expert_images_url
       \<lparr>expert_list = [''a'', ''b'', ''c'', ''d'', ''e''], max_workers = 5, saving_dir = ''.'',
        image_from = 289, image_to = 300\<rparr>
       (Some ''img/tiff16_a/abcde.tif'') = ([], Some ValueError)"
proof (intro conjI impI)
  assume "expert_list self \<noteq> [] \<and> expert_ids (expert_list self)"
  then have "concat (expert_list self) \<noteq> []" using expert_ids_nonempty by blast
  then show "get_expert_images_url self (Some text) =
        (filter (\<lambda>m. \<exists>n. url_index m = Some n \<and> image_from self \<le> n \<and> n \<le> image_to self)
           (takeWhile (\<lambda>m. url_index m \<noteq> None)
              (map snd (finditer (concat (expert_list self)) text))),
         if list_all (\<lambda>m. url_index m \<noteq> None)
              (map snd (finditer (concat (expert_list self)) text))
         then None else Some ValueError)"
    by (simp add: get_expert_images_url_def select_urls_char)
next
  assume "take 4 (drop 1 (last (split_slash m))) \<noteq> []
        \<and> list_all is_digit (take 4 (drop 1 (last (split_slash m))))"
  then show "url_index m \<noteq> None"
    by (simp add: url_index_def py_int_digits)
next
  show "get_expert_images_url
       \<lparr>expert_list = [''a'', ''b'', ''c'', ''d'', ''e''], max_workers = 5, saving_dir = ''.'',
        image_from = 289, image_to = 300\<rparr>
       (Some ''img/tiff16_a/abcde.tif'') = ([], Some ValueError)"
    by (simp add: get_expert_images_url_def finditer_def match_at_def dot_tif_def
      regex_space_def url_index_def py_int_def strip_int_def int_space_def
      unsigned_literal_def is_digit_def digit_value_def)
qed

theorem url_extractor_total_domain_witness:
  "[''a'', ''b''] \<noteq> [] \<and> expert_ids [''a'', ''b'']
   \<and> get_expert_images_url
       \<lparr>expert_list = [''a'', ''b''], max_workers = 5, saving_dir = ''.'',
        image_from = 289, image_to = 300\<rparr>
       (Some ''img/tiff16_a/a0290.tif img/tiff16_a/abcde.tif img/tiff16_b/a0291.tif'') =
     ([''img/tiff16_a/a0290.tif''], Some ValueError)
   \<and> list_all is_digit (take 4 (drop 1 (last (split_slash ''img/tiff16_a/a0290.tif''))))
   \<and> url_index ''img/tiff16_a/a0290.tif'' \<noteq> None"
proof -
  have f: "finditer ''ab'' ''img/tiff16_a/a0290.tif img/tiff16_a/abcde.tif img/tiff16_b/a0291.tif'' =
      [(0, ''img/tiff16_a/a0290.tif''), (23, ''img/tiff16_a/abcde.tif''),
       (46, ''img/tiff16_b/a0291.tif'')]"
    by (simp add: finditer_def match_at_def dot_tif_def regex_space_def)
  have u: "url_index ''img/tiff16_a/a0290.tif'' = Some 290" "url_index ''img/tiff16_a/abcde.tif'' = None"
    by (simp_all add: url_index_def py_int_def strip_int_def int_space_def
      unsigned_literal_def is_digit_def digit_value_def)
  have e: "expert_ids [''a'', ''b'']" by (simp add: expert_ids_def)
  have d: "take 4 (drop 1 (last (split_slash ''img/tiff16_a/a0290.tif''))) = ''0290''"
    by simp
  from url_extractor_total_domain [of "\<lparr>expert_list = [''a'', ''b''], max_workers = 5,
        saving_dir = ''.'', image_from = 289, image_to = 300\<rparr>"
      "''img/tiff16_a/a0290.tif img/tiff16_a/abcde.tif img/tiff16_b/a0291.tif''"
      "''img/tiff16_a/a0290.tif''"]
  show ?thesis using e by (simp add: f u d is_digit_def)
qed

section \<open>The directory preparer: idempotence\<close>






section \<open>The listing fetcher: the three ways a request ends\<close>

lemma make_request_raises:
  "make_request (Raises name) timeout s =
     (Return None, emit [Sleep_jitter, Get_listing timeout, Print_line name] s)"
  by (simp add: make_request_def emit_def)

lemma make_request_ok:
  "make_request (Responds 200 body) timeout s =
     (Return (Some body),
      emit [Sleep_jitter, Get_listing timeout, Print_line ''request successed''] s)"
  by (simp add: make_request_def emit_def)

lemma make_request_status:
  "code \<noteq> 200 \<Longrightarrow>
   make_request (Responds code body) timeout s =
     (SystemExit,
      emit [Sleep_jitter, Get_listing timeout,
            Print_line (''Status_code: '' @ status_code code)] s)"
  by (simp add: make_request_def emit_def)

text \<open>
  C3. A status other than 200 ends the process and a status of 200 returns the body
  (the two lemmas above), for every timeout. A request that raises does not end the run:
  for every timeout the fetcher prints the name of the class and returns \<^verbatim>\<open>None\<close>.
  The run goes on, makes the folder of the expert and opens the pool, and ends only when
  the generator hands \<^verbatim>\<open>None\<close> to \<^verbatim>\<open>re.finditer\<close>, with \<^verbatim>\<open>TypeError\<close>.
\<close>

theorem listing_failure_goes_on:
  "make_request (Raises name) timeout s =
     (Return None, emit [Sleep_jitter, Get_listing timeout, Print_line name] s)
   \<and> (\<exists>s'. main fuel (Raises ''ConnectionError'') net
          \<lparr>expert_list = [''a''], max_workers = 5, saving_dir = ''/data'',
           image_from = 289, image_to = 300\<rparr>
          \<lparr>incomplete_images = [], files = Map.empty, submitted = [], trace = []\<rparr> =
          Some (Raise TypeError, s')
        \<and> files s' \<lparr>root = ''/'', parts = [''data'', ''fivek_expert'', ''tiff16_a'']\<rparr> =
            Some Directory
        \<and> trace s' = [Sleep_jitter, Get_listing 5, Print_line ''ConnectionError'',
                       Pool_open 5, Pool_join])"
  by (simp add: make_request_raises main_def emit_def create_expert_folder_def mkdir_parents_def
      Path_def child_def Let_def bulk_phase_def get_expert_images_url_def run_pool_def)

section \<open>The bulk phase: the first submission\<close>

text \<open>
  Whatever the generator yields first, evaluating the arguments of \<^verbatim>\<open>submit\<close> raises
  \<^verbatim>\<open>AttributeError\<close>, and no task has been submitted.
\<close>

lemma bulk_loop_str:
  "bulk_loop (\<lambda>url. submit_args (Some d) (Str url)) count i (u # us) gerr futures =
     (Some AttributeError, futures)"
  by (simp add: submit_args_def)

lemma bulk_phase_first_url:
  "fst urls \<noteq> [] \<Longrightarrow> 0 < max_workers self \<Longrightarrow>
   bulk_phase net self urls (Some d) s =
     ((Some AttributeError, []), run_pool net (max_workers self) [] s)"
  by (cases "fst urls") (simp_all add: bulk_phase_def submit_args_def)

text \<open>
  C1. A listing with one matching URL, \<^verbatim>\<open>img/tiff16_a/a0289.tif\<close>, for the experts a
  to e and the range 289 to 300: the extractor yields the URL, and the run ends with
  \<^verbatim>\<open>AttributeError\<close>, no task submitted to the pool, for every transport.
\<close>

theorem bulk_phase_submits_nothing:
  "observe (main fuel (Responds 200 ''img/tiff16_a/a0289.tif'') net
      \<lparr>expert_list = [''a'', ''b'', ''c'', ''d'', ''e''], max_workers = 5, saving_dir = ''/data'',
       image_from = 289, image_to = 300\<rparr>
      \<lparr>incomplete_images = [], files = Map.empty, submitted = [], trace = []\<rparr>) =
     Some (Raise AttributeError, [], [])
   \<and> get_expert_images_url
       \<lparr>expert_list = [''a'', ''b'', ''c'', ''d'', ''e''], max_workers = 5, saving_dir = ''/data'',
        image_from = 289, image_to = 300\<rparr> (Some ''img/tiff16_a/a0289.tif'') =
     ([''img/tiff16_a/a0289.tif''], None)"
proof -
  have g: "get_expert_images_url
       \<lparr>expert_list = [''a'', ''b'', ''c'', ''d'', ''e''], max_workers = 5, saving_dir = ''/data'',
        image_from = 289, image_to = 300\<rparr> (Some ''img/tiff16_a/a0289.tif'') =
     ([''img/tiff16_a/a0289.tif''], None)"
    by (simp add: get_expert_images_url_def finditer_def match_at_def dot_tif_def
      regex_space_def url_index_def py_int_def strip_int_def int_space_def
      unsigned_literal_def is_digit_def digit_value_def)
  show ?thesis
    by (simp add: g observe_def main_def make_request_ok emit_def create_expert_folder_def
      mkdir_parents_def Path_def child_def Let_def bulk_phase_def submit_args_def run_pool_def)
qed

text \<open>
  C4. The experts a and b, the range 289 to 290, and a listing with an entry for each
  index of the range and each expert: \<^verbatim>\<open>total_images\<close> is 2, the extractor yields
  four URLs, and the run ends with \<^verbatim>\<open>AttributeError\<close> with no task submitted.
\<close>

theorem initial_task_count_zero:
  "total_images
       \<lparr>expert_list = [''a'', ''b''], max_workers = 5, saving_dir = ''/data'',
        image_from = 289, image_to = 290\<rparr> = 2
   \<and> get_expert_images_url
       \<lparr>expert_list = [''a'', ''b''], max_workers = 5, saving_dir = ''/data'',
        image_from = 289, image_to = 290\<rparr>
       (Some ''img/tiff16_a/a0289.tif img/tiff16_a/a0290.tif img/tiff16_b/a0289.tif img/tiff16_b/a0290.tif'') =
     ([''img/tiff16_a/a0289.tif'', ''img/tiff16_a/a0290.tif'', ''img/tiff16_b/a0289.tif'',
       ''img/tiff16_b/a0290.tif''], None)
   \<and> observe (main fuel
        (Responds 200 ''img/tiff16_a/a0289.tif img/tiff16_a/a0290.tif img/tiff16_b/a0289.tif img/tiff16_b/a0290.tif'')
        net
        \<lparr>expert_list = [''a'', ''b''], max_workers = 5, saving_dir = ''/data'',
         image_from = 289, image_to = 290\<rparr>
        \<lparr>incomplete_images = [], files = Map.empty, submitted = [], trace = []\<rparr>) =
     Some (Raise AttributeError, [], [])"
proof -
  have g: "get_expert_images_url
       \<lparr>expert_list = [''a'', ''b''], max_workers = 5, saving_dir = ''/data'',
        image_from = 289, image_to = 290\<rparr>
       (Some ''img/tiff16_a/a0289.tif img/tiff16_a/a0290.tif img/tiff16_b/a0289.tif img/tiff16_b/a0290.tif'') =
     ([''img/tiff16_a/a0289.tif'', ''img/tiff16_a/a0290.tif'', ''img/tiff16_b/a0289.tif'',
       ''img/tiff16_b/a0290.tif''], None)"
    by (simp add: get_expert_images_url_def finditer_def match_at_def dot_tif_def
      regex_space_def url_index_def py_int_def strip_int_def int_space_def
      unsigned_literal_def is_digit_def digit_value_def)
  show ?thesis
    by (simp add: g total_images_def observe_def main_def make_request_ok emit_def
      create_expert_folder_def mkdir_parents_def Path_def child_def Let_def bulk_phase_def
      submit_args_def run_pool_def)
qed

section \<open>The cleanup phases\<close>

lemma download_image_request_error:
  "net 0 = RequestError \<Longrightarrow>
   download_image net url p s =
     (Return (),
      record_failure (url, p) (emit [Get (fivek_src @ ''/'' @ url), Print_error url] s))"
  by (simp add: download_image_def download_loop_error)

lemma download_image_downloaded:
  "net 0 = Downloaded \<Longrightarrow>
   download_image net url p s =
     (Return (), emit [Get (fivek_src @ ''/'' @ url), Save p, Sleep_politeness] s)"
  by (simp add: download_image_def download_loop_ok)

lemma download_loop_submitted:
  "submitted (snd (download_loop net url image_path retry s)) = submitted s"
proof (induction net url image_path retry s rule: download_loop.induct)
  case (1 net url image_path retry s)
  show ?case
  proof (cases "retry < 3")
    case False
    then show ?thesis by (simp add: download_loop.simps [of net url image_path retry s])
  next
    case True
    show ?thesis
    proof (cases "net retry")
      case Downloaded
      with True show ?thesis
        by (simp add: download_loop.simps [of net url image_path retry s] emit_def)
    next
      case (Http_error code)
      with True show ?thesis
        by (simp add: download_loop.simps [of net url image_path retry s] emit_def)
    next
      case Timeout
      with True 1 show ?thesis
        by (simp add: download_loop.simps [of net url image_path retry s] emit_def
            record_failure_def Let_def)
    next
      case RequestError
      with True show ?thesis
        by (simp add: download_loop.simps [of net url image_path retry s] emit_def
            record_failure_def)
    next
      case Uncaught
      with True show ?thesis
        by (simp add: download_loop.simps [of net url image_path retry s] emit_def)
    qed
  qed
qed

lemma download_image_submitted:
  "submitted (snd (download_image net url image_path s)) = submitted s"
  by (simp add: download_image_def download_loop_submitted)

lemma run_tasks_submitted: "submitted (run_tasks net k ts s) = submitted s"
  by (induction ts arbitrary: k s) (simp_all add: download_image_submitted)

lemma run_tasks_all_downloaded:
  "(\<And>j. k \<le> j \<Longrightarrow> net j 0 = Downloaded) \<Longrightarrow>
   incomplete_images (run_tasks net k ts s) = incomplete_images s"
proof (induction ts arbitrary: k s)
  case Nil
  then show ?case by simp
next
  case (Cons t ts)
  have "net k 0 = Downloaded" using Cons.prems by simp
  then have "incomplete_images (snd (download_image (net k) (fst t) (snd t) s)) =
      incomplete_images s"
    by (simp add: download_image_downloaded emit_def)
  moreover have "incomplete_images
      (run_tasks net (Suc k) ts (snd (download_image (net k) (fst t) (snd t) s))) =
      incomplete_images (snd (download_image (net k) (fst t) (snd t) s))"
    by (rule Cons.IH) (simp add: Cons.prems)
  ultimately show ?case by simp
qed

lemma run_pool_all_downloaded:
  assumes "\<And>j. length (submitted s) \<le> j \<Longrightarrow> net j 0 = Downloaded"
  shows "incomplete_images (run_pool net workers ts s) = incomplete_images s"
    and "submitted (run_pool net workers ts s) = submitted s @ ts"
proof -
  have "incomplete_images
      (run_tasks net (length (submitted s)) ts
         (emit (Pool_open workers # map Submit ts) (s\<lparr>submitted := submitted s @ ts\<rparr>))) =
      incomplete_images (emit (Pool_open workers # map Submit ts) (s\<lparr>submitted := submitted s @ ts\<rparr>))"
    by (rule run_tasks_all_downloaded) (rule assms)
  then show "incomplete_images (run_pool net workers ts s) = incomplete_images s"
    by (simp add: run_pool_def emit_def)
  show "submitted (run_pool net workers ts s) = submitted s @ ts"
    by (simp add: run_pool_def emit_def run_tasks_submitted)
qed

lemma cleanup_loop_stale:
  "(\<And>j. length (submitted s) \<le> j \<Longrightarrow> net j 0 = Downloaded) \<Longrightarrow>
   incomplete_images s = t # ts \<Longrightarrow>
   cleanup_loop fuel net workers True (t # ts) s = None"
proof (induction fuel arbitrary: s)
  case 0
  then show ?case by simp
next
  case (Suc fuel)
  let ?s' = "run_pool net workers (t # ts) s"
  have i: "incomplete_images ?s' = t # ts"
    using Suc.prems by (simp add: run_pool_all_downloaded)
  have "submitted ?s' = submitted s @ t # ts"
    using Suc.prems(1) by (rule run_pool_all_downloaded)
  then have "\<And>j. length (submitted ?s') \<le> j \<Longrightarrow> net j 0 = Downloaded"
    using Suc.prems(1) by simp
  then have "cleanup_loop fuel net workers True (t # ts) ?s' = None"
    using i by (rule Suc.IH)
  then show ?case using i by (simp add: Let_def)
qed

text \<open>
  C2. Two tasks are on the Failure List when \<^verbatim>\<open>main\<close> starts (two calls of
  \<^verbatim>\<open>download_image\<close> whose requests failed), and the listing has no matching URL, so
  the bulk phase submits nothing. The cleanup phase submits the first task only: line
  211 then reads the unbound variable \<^verbatim>\<open>future\<close>, and the run ends with
  \<^verbatim>\<open>UnboundLocalError\<close>; the second task is never submitted again. And with
  \<^verbatim>\<open>future\<close> bound, the loop does not end once a cleanup phase has recorded a
  failure: a task that times out in the first cleanup phase and downloads well ever
  after stays on the Failure List, which line 214 reads and nothing empties, and is
  submitted again in every phase; no amount of fuel lets the loop return.
\<close>

theorem cleanup_phase_breaks:
  "observe (main (Suc fuel) (Responds 200 ''no image here'') (\<lambda>k n. Downloaded)
      \<lparr>expert_list = [''a''], max_workers = 5, saving_dir = ''/data'',
       image_from = 289, image_to = 300\<rparr>
      (snd (download_image (\<lambda>n. RequestError) ''img/tiff16_a/a0290.tif'' ''/data/a0290.tif''
        (snd (download_image (\<lambda>n. RequestError) ''img/tiff16_a/a0289.tif'' ''/data/a0289.tif''
          \<lparr>incomplete_images = [], files = Map.empty, submitted = [], trace = []\<rparr>))))) =
     Some (Raise UnboundLocalError, [], [(''img/tiff16_a/a0289.tif'', ''/data/a0289.tif'')])
   \<and> (\<forall>fuel. cleanup_loop fuel (\<lambda>k n. if k = 0 then Timeout else Downloaded) 5 True
         [(''img/tiff16_a/a0289.tif'', ''/data/a0289.tif'')]
         \<lparr>incomplete_images = [], files = Map.empty, submitted = [], trace = []\<rparr> = None)"
proof (intro conjI allI)
  have g: "get_expert_images_url
       \<lparr>expert_list = [''a''], max_workers = 5, saving_dir = ''/data'',
        image_from = 289, image_to = 300\<rparr> (Some ''no image here'') = ([], None)"
    by (simp add: get_expert_images_url_def finditer_def match_at_def)
  show "observe (main (Suc fuel) (Responds 200 ''no image here'') (\<lambda>k n. Downloaded)
      \<lparr>expert_list = [''a''], max_workers = 5, saving_dir = ''/data'',
       image_from = 289, image_to = 300\<rparr>
      (snd (download_image (\<lambda>n. RequestError) ''img/tiff16_a/a0290.tif'' ''/data/a0290.tif''
        (snd (download_image (\<lambda>n. RequestError) ''img/tiff16_a/a0289.tif'' ''/data/a0289.tif''
          \<lparr>incomplete_images = [], files = Map.empty, submitted = [], trace = []\<rparr>))))) =
     Some (Raise UnboundLocalError, [], [(''img/tiff16_a/a0289.tif'', ''/data/a0289.tif'')])"
    by (simp add: g observe_def main_def make_request_ok emit_def create_expert_folder_def
        mkdir_parents_def Path_def child_def Let_def bulk_phase_def run_pool_def
        download_image_request_error download_image_downloaded record_failure_def)
next
  fix fuel
  let ?net = "\<lambda>k n. if k = (0::nat) then Timeout else Downloaded"
  let ?t = "(''img/tiff16_a/a0289.tif'', ''/data/a0289.tif'')"
  let ?s = "\<lparr>incomplete_images = [], files = Map.empty, submitted = [], trace = []\<rparr>"
  show "cleanup_loop fuel ?net 5 True [?t] ?s = None"
  proof (cases fuel)
    case 0
    then show ?thesis by simp
  next
    case (Suc f)
    let ?s' = "run_pool ?net 5 [?t] ?s"
    have i: "incomplete_images ?s' = [?t]"
      by (simp add: run_pool_def three_timeouts emit_def record_failure_def)
    have "submitted ?s' = [?t]"
      by (simp add: run_pool_def download_image_submitted emit_def)
    then have "\<And>j. length (submitted ?s') \<le> j \<Longrightarrow> ?net j 0 = Downloaded"
      by simp
    then have "cleanup_loop f ?net 5 True [?t] ?s' = None"
      using i by (rule cleanup_loop_stale)
    then show ?thesis using Suc i by (simp add: Let_def)
  qed
qed

text \<open>
  C7. A call of \<^verbatim>\<open>download_image\<close> whose three attempts time out appends its task
  to the Failure List once. In the run that follows, the cleanup phase submits the task
  again, its three attempts time out again, and it is appended once to the new Failure
  List; then line 211 raises \<^verbatim>\<open>UnboundLocalError\<close> and the run ends with the task on
  the Failure List and one submission in all: there is no following phase in which it is
  submitted again.
\<close>

theorem timed_out_task_not_retried:
  "incomplete_images (snd (download_image (\<lambda>n. Timeout) ''img/tiff16_a/a0289.tif'' ''/data/a0289.tif''
        \<lparr>incomplete_images = [], files = Map.empty, submitted = [], trace = []\<rparr>)) =
     [(''img/tiff16_a/a0289.tif'', ''/data/a0289.tif'')]
   \<and> observe (main (Suc fuel) (Responds 200 ''no image here'') (\<lambda>k n. Timeout)
      \<lparr>expert_list = [''a''], max_workers = 5, saving_dir = ''/data'',
       image_from = 289, image_to = 300\<rparr>
      (snd (download_image (\<lambda>n. Timeout) ''img/tiff16_a/a0289.tif'' ''/data/a0289.tif''
          \<lparr>incomplete_images = [], files = Map.empty, submitted = [], trace = []\<rparr>))) =
     Some (Raise UnboundLocalError, [(''img/tiff16_a/a0289.tif'', ''/data/a0289.tif'')],
           [(''img/tiff16_a/a0289.tif'', ''/data/a0289.tif'')])"
proof -
  have g: "get_expert_images_url
       \<lparr>expert_list = [''a''], max_workers = 5, saving_dir = ''/data'',
        image_from = 289, image_to = 300\<rparr> (Some ''no image here'') = ([], None)"
    by (simp add: get_expert_images_url_def finditer_def match_at_def)
  show ?thesis
    by (simp add: g observe_def main_def make_request_ok emit_def create_expert_folder_def
        mkdir_parents_def Path_def child_def Let_def bulk_phase_def run_pool_def
        three_timeouts record_failure_def)
qed

section \<open>The bulk phase: the number of tasks\<close>

text \<open>
  The loop, whatever the arguments of \<^verbatim>\<open>submit\<close> evaluate to: it would submit at most
  \<^verbatim>\<open>total_images\<close> tasks and leave by \<^verbatim>\<open>break\<close> after that many. With the
  arguments of line 196 it never comes that far.
\<close>

lemma bulk_loop_bound:
  "0 < count \<Longrightarrow> 1 \<le> i \<Longrightarrow> i \<le> count \<Longrightarrow> int (length futures) = i - 1 \<Longrightarrow>
   int (length (snd (bulk_loop args count i urls gerr futures))) \<le> count"
proof (induction urls arbitrary: i futures)
  case Nil
  then show ?case by simp
next
  case (Cons url urls)
  show ?case
  proof (cases "args url")
    case (Inl e)
    with Cons.prems show ?thesis by simp
  next
    case (Inr t)
    show ?thesis
    proof (cases "i mod count = 0")
      case True
      with Inr Cons.prems show ?thesis by simp
    next
      case False
      have "i \<noteq> count" using False by auto
      with Cons.prems have i: "i + 1 \<le> count" by simp
      have "int (length (futures @ [t])) = i + 1 - 1" using Cons.prems by simp
      with Cons.IH [of "i + 1" "futures @ [t]"] Cons.prems i
      have "int (length (snd (bulk_loop args count (i + 1) urls gerr (futures @ [t])))) \<le> count"
        by simp
      with Inr False Cons.prems show ?thesis by simp
    qed
  qed
qed

lemma bulk_loop_stops:
  "0 < count \<Longrightarrow> 1 \<le> i \<Longrightarrow> i \<le> count \<Longrightarrow> int (length us) = count - i + 1 \<Longrightarrow>
   map args us = map Inr ts \<Longrightarrow>
   bulk_loop args count i (us @ dropped) gerr futures = (None, futures @ ts)"
proof (induction us arbitrary: i futures ts)
  case Nil
  then show ?case by simp
next
  case (Cons u us)
  from Cons.prems(5) obtain t ts' where ts: "ts = t # ts'" and t: "args u = Inr t"
    and rest: "map args us = map Inr ts'"
    by (cases ts) auto
  show ?case
  proof (cases "i = count")
    case True
    with Cons.prems have "us = []" by simp
    with rest have "ts' = []" by simp
    with True Cons.prems t ts \<open>us = []\<close> show ?thesis by simp
  next
    case False
    with Cons.prems have lt: "i < count" by simp
    then have m: "i mod count \<noteq> 0" using Cons.prems by simp
    have "bulk_loop args count (i + 1) (us @ dropped) gerr (futures @ [t]) =
        (None, (futures @ [t]) @ ts')"
      using Cons.prems lt rest by (intro Cons.IH) simp_all
    with t ts m Cons.prems show ?thesis by simp
  qed
qed

text \<open>
  C10. The expert a, the range 289 to 290 and a listing with two matching URLs, so that
  \<^verbatim>\<open>total_images\<close> is 1 and the extractor yields two URLs. The loop does not submit
  one task and leave by \<^verbatim>\<open>break\<close>, dropping the second URL without a word: at the first
  URL it raises \<^verbatim>\<open>AttributeError\<close>, with no task submitted and the test of line 198
  not reached, and the run ends with that exception.
\<close>

theorem bulk_loop_raises_before_break:
  "total_images
       \<lparr>expert_list = [''a''], max_workers = 5, saving_dir = ''/data'',
        image_from = 289, image_to = 290\<rparr> = 1
   \<and> get_expert_images_url
       \<lparr>expert_list = [''a''], max_workers = 5, saving_dir = ''/data'',
        image_from = 289, image_to = 290\<rparr>
       (Some ''img/tiff16_a/a0289.tif img/tiff16_a/a0290.tif'') =
     ([''img/tiff16_a/a0289.tif'', ''img/tiff16_a/a0290.tif''], None)
   \<and> bulk_loop
       (\<lambda>url. submit_args
          (Some \<lparr>root = ''/'', parts = [''data'', ''fivek_expert'', ''tiff16_a'']\<rparr>) (Str url))
       1 1 [''img/tiff16_a/a0289.tif'', ''img/tiff16_a/a0290.tif''] None [] =
     (Some AttributeError, [])
   \<and> observe (main fuel (Responds 200 ''img/tiff16_a/a0289.tif img/tiff16_a/a0290.tif'') net
        \<lparr>expert_list = [''a''], max_workers = 5, saving_dir = ''/data'',
         image_from = 289, image_to = 290\<rparr>
        \<lparr>incomplete_images = [], files = Map.empty, submitted = [], trace = []\<rparr>) =
     Some (Raise AttributeError, [], [])"
proof -
  have g: "get_expert_images_url
       \<lparr>expert_list = [''a''], max_workers = 5, saving_dir = ''/data'',
        image_from = 289, image_to = 290\<rparr>
       (Some ''img/tiff16_a/a0289.tif img/tiff16_a/a0290.tif'') =
     ([''img/tiff16_a/a0289.tif'', ''img/tiff16_a/a0290.tif''], None)"
    by (simp add: get_expert_images_url_def finditer_def match_at_def dot_tif_def
      regex_space_def url_index_def py_int_def strip_int_def int_space_def
      unsigned_literal_def is_digit_def digit_value_def)
  show ?thesis
    by (simp add: g total_images_def observe_def main_def make_request_ok emit_def
      create_expert_folder_def mkdir_parents_def Path_def child_def Let_def bulk_phase_def
      submit_args_def run_pool_def)
qed

end
